theory Spec2Isabelle
  imports Complex_Main
begin

section \<open>arcadeGraph.py: a grid of ships with positions and velocities\<close>

text \<open>
  Numbers. The program computes with Python ints (the results of \<open>random.randint\<close>, the
  grid bounds, the steps of the arrow keys) and with floats (mouse coordinates, the angle).
  A coordinate is a \<open>real\<close>, which represents every int exactly. A velocity component
  carries its Python type (\<open>pynum\<close>), because the true division of \<open>_getTheta\<close> treats
  ints and floats differently. \<open>math.atan\<close> and \<open>math.degrees\<close> are the exact functions
  \<open>arctan\<close> and multiplication by \<open>180 / pi\<close>, and sums and differences are exact: the
  rounding of IEEE doubles, their infinities and NaN are not part of this model (nor is
  the OverflowError of converting an int coordinate beyond the doubles), so it
  agrees with the program on a sum or difference only while the operands and the result
  are ints, or floats that hold integers of magnitude at most \<open>2 ^ 53\<close>. Nothing proved
  below about the scene rests on a sum or difference outside that range.
\<close>

subsection \<open>Global constants\<close>

definition SCREEN_WIDTH :: int where
  "SCREEN_WIDTH = 12"

definition SCREEN_HEIGHT :: int where
  "SCREEN_HEIGHT = 10"

definition PIXELS_PER_GRID :: int where
  "PIXELS_PER_GRID = 75"

definition MAX_NUMBER_OF_SHIPS :: nat where
  "MAX_NUMBER_OF_SHIPS = 9"

subsection \<open>Errors a handler can raise\<close>

datatype py_error = IndexError | ZeroDivisionError | OverflowError

subsection \<open>Python numbers\<close>

text \<open>A number is an int or a float; \<open>val\<close> is its value.\<close>

datatype pynum = PyInt int | PyFloat real

fun val :: "pynum \<Rightarrow> real" where
  "val (PyInt n) = of_int n"
| "val (PyFloat r) = r"

text \<open>\<open>abs\<close> keeps the type of its argument.\<close>

fun py_abs :: "pynum \<Rightarrow> pynum" where
  "py_abs (PyInt n) = PyInt \<bar>n\<bar>"
| "py_abs (PyFloat r) = PyFloat \<bar>r\<bar>"

text \<open>\<open>a += k\<close> for an int \<open>k\<close> keeps the type of \<open>a\<close>.\<close>

fun py_add_int :: "pynum \<Rightarrow> int \<Rightarrow> pynum" where
  "py_add_int (PyInt n) k = PyInt (n + k)"
| "py_add_int (PyFloat r) k = PyFloat (r + of_int k)"

text \<open>
  The least magnitude that no longer rounds to a finite double: the midpoint between the
  largest double and \<open>2 ^ 1024\<close>.
\<close>

definition DBL_OVERFLOW :: int where
  "DBL_OVERFLOW = 2 ^ 1024 - 2 ^ 970"

text \<open>
  The conversion of an operand to a float, which mixed arithmetic performs on its int
  operand: OverflowError (int too large to convert to float) from \<open>DBL_OVERFLOW\<close> on.
\<close>

fun to_float :: "pynum \<Rightarrow> py_error + real" where
  "to_float (PyInt n) = (if \<bar>n\<bar> \<ge> DBL_OVERFLOW then Inl OverflowError else Inr (of_int n))"
| "to_float (PyFloat r) = Inr r"

text \<open>
  The true division \<open>a / b\<close>. On two ints a zero divisor raises ZeroDivisionError, and a
  quotient that rounds beyond the doubles raises OverflowError (integer division result
  too large for a float). Otherwise both operands are converted to floats, left operand
  first, and then a zero divisor raises ZeroDivisionError; a float quotient never raises.
\<close>

fun true_div :: "pynum \<Rightarrow> pynum \<Rightarrow> py_error + real" where
  "true_div (PyInt a) (PyInt b) =
     (if b = 0 then Inl ZeroDivisionError
      else if \<bar>a\<bar> \<ge> DBL_OVERFLOW * \<bar>b\<bar> then Inl OverflowError
      else Inr (of_int a / of_int b))"
| "true_div a b =
     (case to_float a of
        Inl e \<Rightarrow> Inl e
      | Inr p \<Rightarrow>
          (case to_float b of
             Inl e \<Rightarrow> Inl e
           | Inr q \<Rightarrow> if q = 0 then Inl ZeroDivisionError else Inr (p / q)))"

subsection \<open>class Point\<close>

record point =
  x :: real
  y :: real

definition Point :: point where
  "Point = \<lparr>x = 0, y = 0\<rparr>"

subsection \<open>class Velocity\<close>

text \<open>\<open>__init__\<close> assigns the floats \<open>0.0\<close>.\<close>

record velocity =
  dx :: pynum
  dy :: pynum

definition Velocity :: velocity where
  "Velocity = \<lparr>dx = PyFloat 0, dy = PyFloat 0\<rparr>"

text \<open>\<open>math.degrees\<close>.\<close>

definition degrees :: "real \<Rightarrow> real" where
  "degrees r = r * (180 / pi)"

text \<open>
  \<open>Velocity._getTheta\<close>: the quotient \<open>opposite / adjacent\<close> can raise, and \<open>math.atan\<close>
  is applied to its value otherwise.
\<close>

definition getTheta :: "velocity \<Rightarrow> py_error + real" where
  "getTheta v =
     (let opposite = py_abs (dy v); adjacent = py_abs (dx v)
      in case true_div opposite adjacent of
           Inl e \<Rightarrow> Inl e
         | Inr q \<Rightarrow> Inr (arctan q))"

text \<open>\<open>Velocity._fixedForQuadrant\<close>.\<close>

definition fixedForQuadrant :: "velocity \<Rightarrow> real \<Rightarrow> real" where
  "fixedForQuadrant v a =
     (if val (dx v) \<ge> 0 then (if val (dy v) \<ge> 0 then a else 360 - a)
      else (if val (dy v) \<ge> 0 then 180 - a else 180 + a))"

text \<open>\<open>Velocity._getDegrees\<close>: two early returns, then the diagonal case.\<close>

definition getDegrees :: "velocity \<Rightarrow> py_error + real" where
  "getDegrees v =
     (if val (dy v) = 0 then (if val (dx v) \<ge> 0 then Inr 0 else Inr 180)
      else if val (dx v) = 0 then (if val (dy v) > 0 then Inr 90 else Inr 270)
      else (case getTheta v of
              Inl e \<Rightarrow> Inl e
            | Inr t \<Rightarrow> Inr (fixedForQuadrant v (degrees t))))"

text \<open>The property \<open>Velocity.angle\<close>.\<close>

definition angle :: "velocity \<Rightarrow> py_error + real" where
  "angle v = getDegrees v"

subsection \<open>class Ship\<close>

text \<open>
  A ship owns a centre and a velocity. The texture and the flag \<open>functionalPath\<close> only
  pick the drawing routine and are left out.
\<close>

record ship =
  center :: point
  velocity :: velocity

text \<open>
  The four results of \<open>random.randint\<close> that one call of \<open>Ship.reset\<close> consumes, in the
  order of the calls. \<open>valid_draw\<close> is the range \<open>randint\<close> promises for each.
\<close>

record draw =
  rand_x :: int
  rand_y :: int
  rand_dx :: int
  rand_dy :: int

definition valid_draw :: "draw \<Rightarrow> bool" where
  "valid_draw d \<longleftrightarrow>
     2 \<le> rand_x d \<and> rand_x d \<le> SCREEN_WIDTH - 2 \<and>
     2 \<le> rand_y d \<and> rand_y d \<le> SCREEN_HEIGHT - 2 \<and>
     - 3 \<le> rand_dx d \<and> rand_dx d \<le> 3 \<and>
     - 3 \<le> rand_dy d \<and> rand_dy d \<le> 3"

text \<open>\<open>Ship.reset\<close>: all four values are ints.\<close>

definition reset :: "draw \<Rightarrow> ship \<Rightarrow> ship" where
  "reset d s =
     s\<lparr>center := (center s)\<lparr>x := of_int (rand_x d), y := of_int (rand_y d)\<rparr>,
       velocity := (velocity s)\<lparr>dx := PyInt (rand_dx d), dy := PyInt (rand_dy d)\<rparr>\<rparr>"

text \<open>\<open>Ship.__init__\<close>: a fresh point and velocity, then \<open>reset\<close>.\<close>

definition Ship :: "draw \<Rightarrow> ship" where
  "Ship d = reset d \<lparr>center = Point, velocity = Velocity\<rparr>"

text \<open>\<open>Ship.wrapOffScreen\<close>: first the x axis, then the y axis.\<close>

definition wrapOffScreen :: "ship \<Rightarrow> ship" where
  "wrapOffScreen s =
     (let s1 = (if x (center s) < 0
                then s\<lparr>center := (center s)\<lparr>x := of_int SCREEN_WIDTH\<rparr>\<rparr>
                else if x (center s) > of_int SCREEN_WIDTH
                then s\<lparr>center := (center s)\<lparr>x := 0\<rparr>\<rparr>
                else s)
      in (if y (center s1) < 0
          then s1\<lparr>center := (center s1)\<lparr>y := of_int SCREEN_HEIGHT\<rparr>\<rparr>
          else if y (center s1) > of_int SCREEN_HEIGHT
          then s1\<lparr>center := (center s1)\<lparr>y := 0\<rparr>\<rparr>
          else s1))"

text \<open>
  \<open>Ship.advance\<close>. The global \<open>WRAP_AROUND_SCREEN\<close> is read at the call and is passed
  as the first argument. The two sums are the exact ones (see the note on numbers): where
  Python rounds a float sum, the model and the program part.
\<close>

definition advance :: "bool \<Rightarrow> ship \<Rightarrow> ship" where
  "advance wrap s =
     (let s1 = s\<lparr>center := (center s)\<lparr>x := x (center s) + val (dx (velocity s))\<rparr>\<rparr>;
          s2 = s1\<lparr>center := (center s1)\<lparr>y := y (center s1) + val (dy (velocity s1))\<rparr>\<rparr>
      in if wrap then wrapOffScreen s2 else s2)"

subsection \<open>Keys, mouse buttons and the window\<close>

datatype key =
  SPACE | A | UP | DOWN | RIGHT | LEFT | D | W | T | H
  | KEY_1 | KEY_2 | KEY_3 | KEY_4 | KEY_5 | KEY_6 | KEY_7 | KEY_8 | KEY_9
  | OTHER_KEY

definition NUMBER_KEYS :: "key list" where
  "NUMBER_KEYS = [KEY_1, KEY_2, KEY_3, KEY_4, KEY_5, KEY_6, KEY_7, KEY_8, KEY_9]"

datatype button = MOUSE_BUTTON_LEFT | MOUSE_BUTTON_MIDDLE | MOUSE_BUTTON_RIGHT

text \<open>
  The fields of \<open>Game\<close> that the handlers read or write, and the module's global
  \<open>WRAP_AROUND_SCREEN\<close>, which the W key assigns. The grid and the help window are
  drawn only.
\<close>

record game =
  players :: "ship list"
  detailed :: bool
  constantUpdate :: bool
  advanceTimer :: int
  playerToManipulate :: int
  timeMouseReleased :: int
  g_alpha :: int
  drawHelpWindow :: bool
  held_keys :: "key set"
  WRAP_AROUND_SCREEN :: bool

text \<open>
  \<open>Game.__init__\<close>, with the draw its \<open>Ship()\<close> consumes and the clock reading
  \<open>int(round(time.time() * 1000))\<close>. The global starts as \<open>True\<close>.
\<close>

definition Game :: "draw \<Rightarrow> int \<Rightarrow> game" where
  "Game d now =
     \<lparr>players = [Ship d], detailed = False, constantUpdate = False, advanceTimer = 0,
      playerToManipulate = 0, timeMouseReleased = now, g_alpha = 255,
      drawHelpWindow = False, held_keys = {}, WRAP_AROUND_SCREEN = True\<rparr>"

text \<open>
  Python's list subscript: an index from \<open>-len\<close> to \<open>len - 1\<close> names a position, any
  other raises IndexError.
\<close>

definition subscript :: "'a list \<Rightarrow> int \<Rightarrow> py_error + nat" where
  "subscript xs i =
     (let n = int (length xs)
      in if 0 \<le> i \<and> i < n then Inr (nat i)
         else if - n \<le> i \<and> i < 0 then Inr (nat (i + n))
         else Inl IndexError)"

text \<open>An assignment through \<open>self.players[0]\<close>.\<close>

definition with_first :: "game \<Rightarrow> (ship \<Rightarrow> ship) \<Rightarrow> py_error + game" where
  "with_first g f =
     (case players g of
        [] \<Rightarrow> Inl IndexError
      | p # rest \<Rightarrow> Inr (g\<lparr>players := f p # rest\<rparr>))"

text \<open>\<open>Game.shipAtPoint\<close>: the first ship whose centre is the point, or \<open>None\<close>.\<close>

fun shipAtPoint :: "ship list \<Rightarrow> real \<Rightarrow> real \<Rightarrow> ship option" where
  "shipAtPoint [] px py = None"
| "shipAtPoint (s # ss) px py =
     (if x (center s) = px \<and> y (center s) = py then Some s else shipAtPoint ss px py)"

text \<open>
  The first loop of \<open>Game.manageShipList\<close>. \<open>list.remove\<close> deletes the first element
  equal to its argument; a \<open>Ship\<close> is equal to itself only, and the ship that
  \<open>shipAtPoint\<close> returns is the first one with that centre, so no equal value stands
  before it and \<open>remove1\<close> deletes the same element.
\<close>

function remove_at_point :: "ship list \<Rightarrow> real \<Rightarrow> real \<Rightarrow> bool \<Rightarrow> ship list \<times> bool" where
  "remove_at_point ps px py shipWasThere =
     (case shipAtPoint ps px py of
        None \<Rightarrow> (ps, shipWasThere)
      | Some existingShip \<Rightarrow>
          if length ps > 1 then remove_at_point (remove1 existingShip ps) px py True
          else (ps, shipWasThere))"
  by pat_completeness auto
termination
proof (relation "measure (\<lambda>(ps, px, py, shipWasThere). length ps)")
  show "wf (measure (\<lambda>(ps, px, py, shipWasThere). length ps))"
    by simp
next
  fix ps :: "ship list" and px py :: real and shipWasThere :: bool and e :: ship
  assume found: "shipAtPoint ps px py = Some e"
  have "shipAtPoint qs px py = Some e \<Longrightarrow> e \<in> set qs" for qs
    by (induction qs) (auto split: if_splits)
  then have "e \<in> set ps"
    using found by blast
  then have "length (remove1 e ps) < length ps"
    using length_pos_if_in_set [of e ps] by (simp add: length_remove1)
  then show "((remove1 e ps, px, py, True), (ps, px, py, shipWasThere))
      \<in> measure (\<lambda>(ps, px, py, shipWasThere). length ps)"
    by simp
qed

text \<open>The second loop of \<open>Game.manageShipList\<close>: step the index down into the list.\<close>

function clamp_selection :: "int \<Rightarrow> ship list \<Rightarrow> int" where
  "clamp_selection i ps = (if i \<ge> int (length ps) then clamp_selection (i - 1) ps else i)"
  by pat_completeness auto
termination
  by (relation "measure (\<lambda>(i, ps). nat (i - int (length ps) + 1))") auto

text \<open>\<open>Game.manageShipList\<close>. The new ship's constructor consumes the draw.\<close>

definition manageShipList :: "game \<Rightarrow> draw \<Rightarrow> real \<Rightarrow> real \<Rightarrow> game" where
  "manageShipList g d px py =
     (let (ps, shipWasThere) = remove_at_point (players g) px py False;
          g1 = g\<lparr>players := ps\<rparr>
      in if shipWasThere
         then g1\<lparr>playerToManipulate := clamp_selection (playerToManipulate g1) (players g1)\<rparr>
         else if length (players g1) < MAX_NUMBER_OF_SHIPS
         then (let newShip = Ship d;
                   newShip1 = newShip\<lparr>center := (center newShip)\<lparr>x := px\<rparr>\<rparr>;
                   newShip2 = newShip1\<lparr>center := (center newShip1)\<lparr>y := py\<rparr>\<rparr>
               in g1\<lparr>players := players g1 @ [newShip2]\<rparr>)
         else g1)"

text \<open>
  \<open>Game.manipulateMainShip\<close>, with the clock reading. The subscript
  \<open>self.players[self.playerToManipulate]\<close> is evaluated before anything is assigned.
  The cell of a mouse coordinate is a float, so the new velocity components are floats.
\<close>

definition manipulateMainShip :: "game \<Rightarrow> int \<Rightarrow> real \<Rightarrow> real \<Rightarrow> py_error + game" where
  "manipulateMainShip g currentTime px py =
     (case subscript (players g) (playerToManipulate g) of
        Inl e \<Rightarrow> Inl e
      | Inr i \<Rightarrow>
          (let p = players g ! i
           in if currentTime - timeMouseReleased g \<le> 100
              then Inr (g\<lparr>players := (players g)[i := p\<lparr>center := (center p)\<lparr>x := px, y := py\<rparr>\<rparr>]\<rparr>)
              else Inr (g\<lparr>players := (players g)[i := p\<lparr>velocity := (velocity p)
                          \<lparr>dx := PyFloat (px - x (center p)),
                           dy := PyFloat (py - y (center p))\<rparr>\<rparr>]\<rparr>)))"

text \<open>
  The loop of the SPACE branch, \<open>while len(self.players) > 1:
  self.players.remove(self.players[1])\<close>.
\<close>

function remove_extra :: "ship list \<Rightarrow> ship list" where
  "remove_extra ps = (if length ps > 1 then remove_extra (remove1 (ps ! 1) ps) else ps)"
  by pat_completeness auto
termination
proof (relation "measure length")
  show "wf (measure (length :: ship list \<Rightarrow> nat))"
    by simp
next
  fix ps :: "ship list"
  assume "1 < length ps"
  then have "ps ! 1 \<in> set ps"
    by simp
  then have "length (remove1 (ps ! 1) ps) < length ps"
    using length_pos_if_in_set [of "ps ! 1" ps] by (simp add: length_remove1)
  then show "(remove1 (ps ! 1) ps, ps) \<in> measure length"
    by simp
qed

text \<open>
  The loop over \<open>NUMBER_KEYS\<close> that ends \<open>Game.on_key_press\<close>; \<open>i\<close> counts the keys
  already seen.
\<close>

fun select_player :: "game \<Rightarrow> key \<Rightarrow> key list \<Rightarrow> int \<Rightarrow> game" where
  "select_player g k [] i = g"
| "select_player g k (keyName # rest) i =
     select_player
       (if k = keyName \<and> i < int (length (players g)) then g\<lparr>playerToManipulate := i\<rparr> else g)
       k rest (i + 1)"

text \<open>The \<open>if\<close>/\<open>elif\<close> chain of \<open>Game.on_key_press\<close>.\<close>

definition key_action :: "game \<Rightarrow> draw \<Rightarrow> key \<Rightarrow> py_error + game" where
  "key_action g d k =
     (if k = SPACE then
        (case with_first g (reset d) of
           Inl e \<Rightarrow> Inl e
         | Inr g1 \<Rightarrow> Inr (g1\<lparr>players := remove_extra (players g1)\<rparr>))
      else if k = A then
        (let g1 = g\<lparr>g_alpha := 0\<rparr>
         in Inr (g1\<lparr>players := map (advance (WRAP_AROUND_SCREEN g1)) (players g1)\<rparr>))
      else if k = UP then
        with_first g (\<lambda>p. p\<lparr>velocity := (velocity p)\<lparr>dy := py_add_int (dy (velocity p)) 1\<rparr>\<rparr>)
      else if k = DOWN then
        with_first g (\<lambda>p. p\<lparr>velocity := (velocity p)\<lparr>dy := py_add_int (dy (velocity p)) (- 1)\<rparr>\<rparr>)
      else if k = RIGHT then
        with_first g (\<lambda>p. p\<lparr>velocity := (velocity p)\<lparr>dx := py_add_int (dx (velocity p)) 1\<rparr>\<rparr>)
      else if k = LEFT then
        with_first g (\<lambda>p. p\<lparr>velocity := (velocity p)\<lparr>dx := py_add_int (dx (velocity p)) (- 1)\<rparr>\<rparr>)
      else if k = D then
        Inr (g\<lparr>detailed := \<not> detailed g\<rparr>)
      else if k = W then
        (let g1 = g\<lparr>WRAP_AROUND_SCREEN := \<not> WRAP_AROUND_SCREEN g\<rparr>
         in Inr (g1\<lparr>players := map wrapOffScreen (players g1)\<rparr>))
      else if k = T then
        Inr (g\<lparr>constantUpdate := \<not> constantUpdate g\<rparr>)
      else if k = H then
        Inr (g\<lparr>drawHelpWindow := True\<rparr>)
      else Inr g)"

text \<open>\<open>Game.on_key_press\<close>.\<close>

definition on_key_press :: "game \<Rightarrow> draw \<Rightarrow> key \<Rightarrow> py_error + game" where
  "on_key_press g d k =
     (case key_action g d k of
        Inl e \<Rightarrow> Inl e
      | Inr g1 \<Rightarrow> Inr (select_player g1 k NUMBER_KEYS 0))"

text \<open>\<open>Game.on_key_release\<close>.\<close>

definition on_key_release :: "game \<Rightarrow> key \<Rightarrow> game" where
  "on_key_release g k =
     (let g1 = (if k = H then g\<lparr>drawHelpWindow := False\<rparr> else g)
      in if k \<in> held_keys g1 then g1\<lparr>held_keys := held_keys g1 - {k}\<rparr> else g1)"

text \<open>\<open>Game.update\<close>; \<open>check_keys\<close> does nothing.\<close>

definition update :: "game \<Rightarrow> game" where
  "update g =
     (let g1 = (if g_alpha g < 255 then g\<lparr>g_alpha := g_alpha g + 15\<rparr> else g)
      in if constantUpdate g1
         then (let g2 = g1\<lparr>advanceTimer := advanceTimer g1 - 1\<rparr>
               in if advanceTimer g2 \<le> 0
                  then (let g3 = g2\<lparr>g_alpha := 0\<rparr>;
                            g4 = g3\<lparr>players := map (advance (WRAP_AROUND_SCREEN g3)) (players g3)\<rparr>
                        in g4\<lparr>advanceTimer := 30\<rparr>)
                  else g2)
         else g1)"

text \<open>\<open>x // PIXELS_PER_GRID\<close> on a mouse coordinate.\<close>

definition grid_cell :: "real \<Rightarrow> real" where
  "grid_cell c = of_int \<lfloor>c / of_int PIXELS_PER_GRID\<rfloor>"

text \<open>\<open>Game.on_mouse_press\<close>.\<close>

definition on_mouse_press :: "game \<Rightarrow> draw \<Rightarrow> int \<Rightarrow> real \<Rightarrow> real \<Rightarrow> button \<Rightarrow> py_error + game" where
  "on_mouse_press g d currentTime mx my b =
     (let newX = grid_cell mx; newY = grid_cell my
      in if b = MOUSE_BUTTON_RIGHT then Inr (manageShipList g d newX newY)
         else if b = MOUSE_BUTTON_LEFT then manipulateMainShip g currentTime newX newY
         else Inr g)"

text \<open>\<open>Game.on_mouse_release\<close>.\<close>

definition on_mouse_release :: "game \<Rightarrow> int \<Rightarrow> button \<Rightarrow> game" where
  "on_mouse_release g currentTime b =
     (if b = MOUSE_BUTTON_LEFT then g\<lparr>timeMouseReleased := currentTime\<rparr> else g)"

subsection \<open>The event loop\<close>

text \<open>
  One callback of the framework. Each comes with what the handler reads from outside the
  program while it runs: a draw for a \<open>Ship.reset\<close> and the clock in milliseconds.
\<close>

datatype event =
  KeyPress key
  | KeyRelease key
  | MousePress real real button
  | MouseRelease real real button
  | Update

record env =
  rand :: draw
  clock :: int

fun handle :: "game \<Rightarrow> env \<times> event \<Rightarrow> py_error + game" where
  "handle g (e, KeyPress k) = on_key_press g (rand e) k"
| "handle g (e, KeyRelease k) = Inr (on_key_release g k)"
| "handle g (e, MousePress mx my b) = on_mouse_press g (rand e) (clock e) mx my b"
| "handle g (e, MouseRelease mx my b) = Inr (on_mouse_release g (clock e) b)"
| "handle g (e, Update) = Inr (update g)"

text \<open>A run of callbacks stops at the first exception.\<close>

fun run :: "game \<Rightarrow> (env \<times> event) list \<Rightarrow> py_error + game" where
  "run g [] = Inr g"
| "run g (step # rest) =
     (case handle g step of
        Inl e \<Rightarrow> Inl e
      | Inr g1 \<Rightarrow> run g1 rest)"

text \<open>
  The three loops are unfolded by hand where a proof needs it: their equations are
  recursive and unconditional.
\<close>

declare remove_at_point.simps [simp del]
declare clamp_selection.simps [simp del]
declare remove_extra.simps [simp del]

text \<open>
  The reference angle in the words of the specification: \<open>atan(|dy| / |dx|)\<close> in
  degrees.
\<close>

definition reference_angle :: "velocity \<Rightarrow> real" where
  "reference_angle v = degrees (arctan (\<bar>val (dy v)\<bar> / \<bar>val (dx v)\<bar>))"

text \<open>A ship whose centre lies within the grid on both axes.\<close>

definition on_screen :: "ship \<Rightarrow> bool" where
  "on_screen s \<longleftrightarrow>
     0 \<le> x (center s) \<and> x (center s) \<le> of_int SCREEN_WIDTH \<and>
     0 \<le> y (center s) \<and> y (center s) \<le> of_int SCREEN_HEIGHT"

text \<open>The selected index names a ship of the list.\<close>

definition valid_selection :: "game \<Rightarrow> bool" where
  "valid_selection g \<longleftrightarrow>
     0 \<le> playerToManipulate g \<and> playerToManipulate g < int (length (players g))"

text \<open>The number of ships is between one and the cap.\<close>

definition count_ok :: "game \<Rightarrow> bool" where
  "count_ok g \<longleftrightarrow> 1 \<le> length (players g) \<and> length (players g) \<le> MAX_NUMBER_OF_SHIPS"

subsection \<open>Sample inputs\<close>

text \<open>
  Two draws within the ranges of \<open>randint\<close>, and the environment of a callback at a
  given clock reading, for the worked examples below.
\<close>

definition sample_draw :: draw where
  "sample_draw = \<lparr>rand_x = 10, rand_y = 5, rand_dx = 3, rand_dy = 0\<rparr>"

definition other_draw :: draw where
  "other_draw = \<lparr>rand_x = 4, rand_y = 8, rand_dx = - 1, rand_dy = 2\<rparr>"

definition at_time :: "int \<Rightarrow> env" where
  "at_time t = \<lparr>rand = sample_draw, clock = t\<rparr>"

section \<open>Properties of the angle\<close>

lemma degrees_arctan_bounds:
  assumes "0 < r"
  shows "0 < degrees (arctan r)" and "degrees (arctan r) < 90"
proof -
  have "0 < arctan r"
    using assms by simp
  then show "0 < degrees (arctan r)"
    by (simp add: degrees_def)
  have "arctan r * (180 / pi) < (pi / 2) * (180 / pi)"
    using arctan_ubound [of r] by (intro mult_strict_right_mono) simp_all
  then show "degrees (arctan r) < 90"
    by (simp add: degrees_def)
qed

lemma val_py_abs: "val (py_abs a) = \<bar>val a\<bar>"
  by (cases a) simp_all

lemma to_float_cases: "to_float a = Inl OverflowError \<or> to_float a = Inr (val a)"
  by (cases a) simp_all

text \<open>What the true division returns: one of the two errors, or the exact quotient.\<close>

lemma true_div_cases:
  "true_div a b = Inl ZeroDivisionError \<or> true_div a b = Inl OverflowError \<or>
   true_div a b = Inr (val a / val b)"
proof (cases a)
  case (PyInt m)
  show ?thesis
  proof (cases b)
    case (PyInt n)
    then show ?thesis
      using \<open>a = PyInt m\<close> by simp
  next
    case (PyFloat q)
    then show ?thesis
      using \<open>a = PyInt m\<close> by simp
  qed
next
  case (PyFloat r)
  then show ?thesis
    using to_float_cases [of b] by (cases b) (auto split: sum.splits)
qed

text \<open>A division by zero needs a zero divisor.\<close>

lemma true_div_zero: "true_div a b = Inl ZeroDivisionError \<Longrightarrow> val b = 0"
proof (cases a)
  case (PyInt m)
  then show "true_div a b = Inl ZeroDivisionError \<Longrightarrow> val b = 0"
    by (cases b) (auto split: if_splits)
next
  case (PyFloat r)
  then show "true_div a b = Inl ZeroDivisionError \<Longrightarrow> val b = 0"
    by (cases b) (auto split: if_splits)
qed


text \<open>On two floats only a zero divisor raises.\<close>

lemma true_div_floats:
  "q \<noteq> 0 \<Longrightarrow> true_div (PyFloat p) (PyFloat q) = Inr (p / q)"
  by simp

lemma getTheta_cases:
  "getTheta v = Inl ZeroDivisionError \<or> getTheta v = Inl OverflowError \<or>
   getTheta v = Inr (arctan (\<bar>val (dy v)\<bar> / \<bar>val (dx v)\<bar>))"
  using true_div_cases [of "py_abs (dy v)" "py_abs (dx v)"]
  by (auto simp: getTheta_def val_py_abs)

lemma getTheta_zero: "getTheta v = Inl ZeroDivisionError \<Longrightarrow> val (dx v) = 0"
  using true_div_zero [of "py_abs (dy v)" "py_abs (dx v)"]
  by (auto simp: getTheta_def val_py_abs split: sum.splits)


text \<open>The diagonal case: the error of \<open>_getTheta\<close>, or the corrected reference angle.\<close>

lemma getDegrees_diagonal:
  assumes "val (dx v) \<noteq> 0" and "val (dy v) \<noteq> 0"
  shows "getDegrees v = Inl OverflowError \<and> getTheta v = Inl OverflowError \<or>
    getDegrees v = Inr (fixedForQuadrant v (reference_angle v))"
proof -
  have "getTheta v \<noteq> Inl ZeroDivisionError"
    using getTheta_zero [of v] assms(1) by blast
  then show ?thesis
    using getTheta_cases [of v] assms
    by (auto simp: getDegrees_def reference_angle_def)
qed

lemma reference_angle_bounds:
  assumes "val (dx v) \<noteq> 0" and "val (dy v) \<noteq> 0"
  shows "0 < reference_angle v" and "reference_angle v < 90"
proof -
  have "0 < \<bar>val (dy v)\<bar> / \<bar>val (dx v)\<bar>"
    using assms by simp
  then show "0 < reference_angle v" and "reference_angle v < 90"
    unfolding reference_angle_def by (rule degrees_arctan_bounds)+
qed

text \<open>In exact arithmetic an angle that is returned lies in \<open>[0, 360)\<close>.\<close>

lemma angle_in_range:
  assumes "angle v = Inr a"
  shows "0 \<le> a \<and> a < 360"
proof (cases "val (dy v) = 0 \<or> val (dx v) = 0")
  case True
  then show ?thesis
    using assms by (auto simp: angle_def getDegrees_def split: if_splits)
next
  case False
  then have nz: "val (dx v) \<noteq> 0" "val (dy v) \<noteq> 0"
    by simp_all
  have "a = fixedForQuadrant v (reference_angle v)"
    using getDegrees_diagonal [OF nz] assms by (auto simp: angle_def)
  then show ?thesis
    using reference_angle_bounds [OF nz] by (simp add: fixedForQuadrant_def)
qed

text \<open>
  The case analysis of the angle, in exact arithmetic: 0 when \<open>dy = 0\<close> and
  \<open>dx \<ge> 0\<close> (the ship at rest included), 180 when \<open>dy = 0\<close> and \<open>dx < 0\<close>, 90 when
  \<open>dx = 0\<close> and \<open>dy > 0\<close>, 270 when \<open>dx = 0\<close> and \<open>dy < 0\<close>; otherwise, unless the
  division overflows, the reference angle \<open>theta\<close>, corrected by quadrant to \<open>theta\<close>,
  \<open>360 - theta\<close>, \<open>180 - theta\<close> or \<open>180 + theta\<close>.
\<close>

lemma angle_by_cases:
  "(val (dy v) = 0 \<and> val (dx v) \<ge> 0 \<longrightarrow> angle v = Inr 0) \<and>
   (val (dy v) = 0 \<and> val (dx v) < 0 \<longrightarrow> angle v = Inr 180) \<and>
   (val (dx v) = 0 \<and> val (dy v) > 0 \<longrightarrow> angle v = Inr 90) \<and>
   (val (dx v) = 0 \<and> val (dy v) < 0 \<longrightarrow> angle v = Inr 270) \<and>
   (val (dx v) \<noteq> 0 \<and> val (dy v) \<noteq> 0 \<and> angle v \<noteq> Inl OverflowError \<longrightarrow>
      (val (dx v) \<ge> 0 \<and> val (dy v) \<ge> 0 \<longrightarrow> angle v = Inr (reference_angle v)) \<and>
      (val (dx v) \<ge> 0 \<and> val (dy v) < 0 \<longrightarrow> angle v = Inr (360 - reference_angle v)) \<and>
      (val (dx v) < 0 \<and> val (dy v) \<ge> 0 \<longrightarrow> angle v = Inr (180 - reference_angle v)) \<and>
      (val (dx v) < 0 \<and> val (dy v) < 0 \<longrightarrow> angle v = Inr (180 + reference_angle v)))"
proof -
  have straight: "val (dy v) = 0 \<or> val (dx v) = 0 \<Longrightarrow>
      angle v = (if val (dy v) = 0 then (if val (dx v) \<ge> 0 then Inr 0 else Inr 180)
                 else (if val (dy v) > 0 then Inr 90 else Inr 270))"
    by (auto simp: angle_def getDegrees_def)
  have diagonal: "val (dx v) \<noteq> 0 \<Longrightarrow> val (dy v) \<noteq> 0 \<Longrightarrow> angle v \<noteq> Inl OverflowError \<Longrightarrow>
      angle v = Inr (fixedForQuadrant v (reference_angle v))"
    using getDegrees_diagonal [of v] by (auto simp: angle_def)
  show ?thesis
    using straight diagonal
    by (auto simp: fixedForQuadrant_def)
qed

lemma angle_by_cases_examples:
  "angle \<lparr>dx = PyInt 2, dy = PyInt 0\<rparr> = Inr 0 \<and>
   angle \<lparr>dx = PyFloat 0, dy = PyFloat 0\<rparr> = Inr 0 \<and>
   angle \<lparr>dx = PyInt (- 2), dy = PyInt 0\<rparr> = Inr 180 \<and>
   angle \<lparr>dx = PyInt 0, dy = PyInt 3\<rparr> = Inr 90 \<and>
   angle \<lparr>dx = PyFloat 0, dy = PyFloat (- 3)\<rparr> = Inr 270 \<and>
   angle \<lparr>dx = PyInt 2, dy = PyInt 2\<rparr> = Inr 45 \<and>
   angle \<lparr>dx = PyFloat 2, dy = PyFloat (- 2)\<rparr> = Inr 315 \<and>
   angle \<lparr>dx = PyFloat (- 2), dy = PyInt 2\<rparr> = Inr 135 \<and>
   angle \<lparr>dx = PyInt (- 2), dy = PyInt (- 2)\<rparr> = Inr 225"
  by (simp add: angle_def getDegrees_def getTheta_def fixedForQuadrant_def degrees_def
      DBL_OVERFLOW_def arctan_one)

lemma arctan_le_arg:
  assumes "0 \<le> r"
  shows "arctan r \<le> r"
proof -
  have "(\<lambda>t. t - arctan t) 0 \<le> (\<lambda>t. t - arctan t) r"
  proof (rule DERIV_nonneg_imp_nondecreasing [OF assms])
    fix t :: real
    have "DERIV (\<lambda>t. t - arctan t) t :> 1 - inverse (1 + t\<^sup>2)"
      by (auto intro!: derivative_eq_intros)
    moreover have "inverse (1 + t\<^sup>2) \<le> 1"
      by (simp add: inverse_le_1_iff)
    ultimately show "\<exists>y. DERIV (\<lambda>t. t - arctan t) t :> y \<and> 0 \<le> y"
      by (intro exI [of _ "1 - inverse (1 + t\<^sup>2)"]) simp
  qed
  then show ?thesis
    by simp
qed

lemma degrees_arctan_small:
  assumes "0 \<le> r"
  shows "degrees (arctan r) \<le> 90 * r"
proof -
  have "arctan r * (180 / pi) \<le> r * (180 / pi)"
    using arctan_le_arg [OF assms] by (intro mult_right_mono) simp_all
  also have "r * (180 / pi) \<le> r * 90"
  proof (rule mult_left_mono [OF _ assms])
    have "180 \<le> 90 * pi"
      using pi_ge_two by simp
    then show "180 / pi \<le> 90"
      by (simp add: field_simps)
  qed
  finally show ?thesis
    by (simp add: degrees_def mult.commute)
qed

lemma angle_below_360:
  assumes "val (dx v) = 10 ^ 16" and "val (dy v) = - 1"
    and "getTheta v \<noteq> Inl OverflowError"
  shows "angle v = Inr (360 - reference_angle v) \<and>
    0 < reference_angle v \<and> reference_angle v < 1 / 2 ^ 45"
proof -
  have nz: "val (dx v) \<noteq> 0" "val (dy v) \<noteq> 0"
    using assms by simp_all
  have "angle v = Inr (fixedForQuadrant v (reference_angle v))"
    using getDegrees_diagonal [OF nz] assms(3) by (auto simp: angle_def)
  then have first: "angle v = Inr (360 - reference_angle v)"
    using assms by (simp add: fixedForQuadrant_def)
  have "reference_angle v \<le> 90 * (1 / 10 ^ 16)"
    using degrees_arctan_small [of "1 / 10 ^ 16"] assms by (simp add: reference_angle_def)
  also have "(90 :: real) * (1 / 10 ^ 16) < 1 / 2 ^ 45"
    by simp
  finally have "reference_angle v < 1 / 2 ^ 45" .
  with first reference_angle_bounds(1) [OF nz] show ?thesis
    by simp
qed

text \<open>
  C6. The case analysis holds as stated (\<open>angle_by_cases\<close>), but the bound
  \<open>[0, 360)\<close> of the docstring does not survive the doubles the program computes with.
  For \<open>dx = 10 ^ 16\<close> and \<open>dy = -1\<close>, as ints or as floats, the exact result is
  \<open>360 - theta\<close> with \<open>0 < theta < 2 ^ -45\<close>. The doubles between 256 and 512 are
  \<open>2 ^ -44\<close> apart, so this value lies strictly between 360 and the midpoint to the
  double below it: the double nearest to it, which the subtraction \<open>360 - angle\<close>
  returns, is 360.0.
\<close>

theorem C6_angle_next_to_360:
  "angle \<lparr>dx = PyInt (10 ^ 16), dy = PyInt (- 1)\<rparr> =
     Inr (360 - reference_angle \<lparr>dx = PyInt (10 ^ 16), dy = PyInt (- 1)\<rparr>) \<and>
   0 < reference_angle \<lparr>dx = PyInt (10 ^ 16), dy = PyInt (- 1)\<rparr> \<and>
   reference_angle \<lparr>dx = PyInt (10 ^ 16), dy = PyInt (- 1)\<rparr> < 1 / 2 ^ 45 \<and>
   angle \<lparr>dx = PyFloat (10 ^ 16), dy = PyFloat (- 1)\<rparr> =
     Inr (360 - reference_angle \<lparr>dx = PyFloat (10 ^ 16), dy = PyFloat (- 1)\<rparr>) \<and>
   0 < reference_angle \<lparr>dx = PyFloat (10 ^ 16), dy = PyFloat (- 1)\<rparr> \<and>
   reference_angle \<lparr>dx = PyFloat (10 ^ 16), dy = PyFloat (- 1)\<rparr> < 1 / 2 ^ 45"
proof -
  have "(1 :: int) < DBL_OVERFLOW * 10 ^ 16"
    by (simp add: DBL_OVERFLOW_def)
  then have "getTheta \<lparr>dx = PyInt (10 ^ 16), dy = PyInt (- 1)\<rparr> \<noteq> Inl OverflowError"
    by (simp add: getTheta_def)
  moreover have "getTheta \<lparr>dx = PyFloat (10 ^ 16), dy = PyFloat (- 1)\<rparr> \<noteq> Inl OverflowError"
    by (simp add: getTheta_def)
  ultimately show ?thesis
    using angle_below_360 [of "\<lparr>dx = PyInt (10 ^ 16), dy = PyInt (- 1)\<rparr>"]
      angle_below_360 [of "\<lparr>dx = PyFloat (10 ^ 16), dy = PyFloat (- 1)\<rparr>"]
    by simp
qed




section \<open>Properties of wrapping\<close>

text \<open>
  C5. \<open>wrapOffScreen\<close> treats each axis on its own: a coordinate below 0 becomes the
  bound of its axis, a coordinate above the bound becomes 0 whatever the overshoot, a
  coordinate within \<open>[0, bound]\<close> stays; so \<open>x = SCREEN_WIDTH + 1\<close> becomes 0 and
  \<open>x = -1\<close> becomes \<open>SCREEN_WIDTH\<close>. The velocity is not touched.
\<close>

theorem C5_wrapOffScreen_axes:
  "(x (center s) < 0 \<longrightarrow> x (center (wrapOffScreen s)) = of_int SCREEN_WIDTH) \<and>
   (x (center s) > of_int SCREEN_WIDTH \<longrightarrow> x (center (wrapOffScreen s)) = 0) \<and>
   (0 \<le> x (center s) \<and> x (center s) \<le> of_int SCREEN_WIDTH \<longrightarrow>
      x (center (wrapOffScreen s)) = x (center s)) \<and>
   (y (center s) < 0 \<longrightarrow> y (center (wrapOffScreen s)) = of_int SCREEN_HEIGHT) \<and>
   (y (center s) > of_int SCREEN_HEIGHT \<longrightarrow> y (center (wrapOffScreen s)) = 0) \<and>
   (0 \<le> y (center s) \<and> y (center s) \<le> of_int SCREEN_HEIGHT \<longrightarrow>
      y (center (wrapOffScreen s)) = y (center s)) \<and>
   (x (center s) = of_int SCREEN_WIDTH + 1 \<longrightarrow> x (center (wrapOffScreen s)) = 0) \<and>
   (x (center s) = - 1 \<longrightarrow> x (center (wrapOffScreen s)) = of_int SCREEN_WIDTH) \<and>
   velocity (wrapOffScreen s) = velocity s"
  by (simp add: wrapOffScreen_def Let_def SCREEN_WIDTH_def SCREEN_HEIGHT_def)

theorem C5_wrapOffScreen_axes_witness:
  "x (center (wrapOffScreen \<lparr>center = \<lparr>x = 13, y = - 4\<rparr>, velocity = \<lparr>dx = PyInt 3, dy = PyInt (- 2)\<rparr>\<rparr>)) = 0 \<and>
   y (center (wrapOffScreen \<lparr>center = \<lparr>x = 13, y = - 4\<rparr>, velocity = \<lparr>dx = PyInt 3, dy = PyInt (- 2)\<rparr>\<rparr>)) = 10 \<and>
   x (center (wrapOffScreen \<lparr>center = \<lparr>x = - 1, y = 7\<rparr>, velocity = \<lparr>dx = PyInt 3, dy = PyInt (- 2)\<rparr>\<rparr>)) = 12 \<and>
   y (center (wrapOffScreen \<lparr>center = \<lparr>x = - 1, y = 7\<rparr>, velocity = \<lparr>dx = PyInt 3, dy = PyInt (- 2)\<rparr>\<rparr>)) = 7 \<and>
   x (center (wrapOffScreen \<lparr>center = \<lparr>x = 40, y = 25\<rparr>, velocity = \<lparr>dx = PyInt 3, dy = PyInt (- 2)\<rparr>\<rparr>)) = 0 \<and>
   y (center (wrapOffScreen \<lparr>center = \<lparr>x = 40, y = 25\<rparr>, velocity = \<lparr>dx = PyInt 3, dy = PyInt (- 2)\<rparr>\<rparr>)) = 0"
  using C5_wrapOffScreen_axes [of "\<lparr>center = \<lparr>x = 13, y = - 4\<rparr>, velocity = \<lparr>dx = PyInt 3, dy = PyInt (- 2)\<rparr>\<rparr>"]
    C5_wrapOffScreen_axes [of "\<lparr>center = \<lparr>x = - 1, y = 7\<rparr>, velocity = \<lparr>dx = PyInt 3, dy = PyInt (- 2)\<rparr>\<rparr>"]
    C5_wrapOffScreen_axes [of "\<lparr>center = \<lparr>x = 40, y = 25\<rparr>, velocity = \<lparr>dx = PyInt 3, dy = PyInt (- 2)\<rparr>\<rparr>"]
  by (simp add: SCREEN_WIDTH_def SCREEN_HEIGHT_def)

lemma wrapOffScreen_on_screen: "on_screen (wrapOffScreen s)"
  by (simp add: on_screen_def wrapOffScreen_def Let_def SCREEN_WIDTH_def SCREEN_HEIGHT_def)

lemma wrapOffScreen_fixpoint: "wrapOffScreen s = s \<longleftrightarrow> on_screen s"
proof
  assume "wrapOffScreen s = s"
  then show "on_screen s"
    using wrapOffScreen_on_screen [of s] by simp
next
  assume "on_screen s"
  then show "wrapOffScreen s = s"
    by (simp add: on_screen_def wrapOffScreen_def)
qed

text \<open>
  C10. \<open>wrapOffScreen\<close> is idempotent: after one application both coordinates lie
  within their bounds, and a second application changes nothing.
\<close>

theorem C10_wrapOffScreen_idempotent:
  "0 \<le> x (center (wrapOffScreen s)) \<and> x (center (wrapOffScreen s)) \<le> of_int SCREEN_WIDTH \<and>
   0 \<le> y (center (wrapOffScreen s)) \<and> y (center (wrapOffScreen s)) \<le> of_int SCREEN_HEIGHT \<and>
   wrapOffScreen (wrapOffScreen s) = wrapOffScreen s"
proof -
  have "on_screen (wrapOffScreen s)"
    by (rule wrapOffScreen_on_screen)
  moreover from this have "wrapOffScreen (wrapOffScreen s) = wrapOffScreen s"
    by (simp only: wrapOffScreen_fixpoint)
  ultimately show ?thesis
    by (simp add: on_screen_def)
qed

theorem C10_wrapOffScreen_idempotent_witness:
  "wrapOffScreen (wrapOffScreen \<lparr>center = \<lparr>x = 13, y = - 4\<rparr>, velocity = \<lparr>dx = PyInt 3, dy = PyInt (- 2)\<rparr>\<rparr>) =
     \<lparr>center = \<lparr>x = 0, y = 10\<rparr>, velocity = \<lparr>dx = PyInt 3, dy = PyInt (- 2)\<rparr>\<rparr>"
  using C10_wrapOffScreen_idempotent [of "\<lparr>center = \<lparr>x = 13, y = - 4\<rparr>, velocity = \<lparr>dx = PyInt 3, dy = PyInt (- 2)\<rparr>\<rparr>"]
  by (simp add: wrapOffScreen_def SCREEN_WIDTH_def SCREEN_HEIGHT_def)

section \<open>Properties of the loops\<close>

lemma select_player_players: "players (select_player g k ks i) = players g"
  by (induction ks arbitrary: g i) auto

lemma select_player_other: "k \<notin> set ks \<Longrightarrow> select_player g k ks i = g"
  by (induction ks arbitrary: g i) auto

lemma select_player_valid:
  "valid_selection g \<Longrightarrow> 0 \<le> i \<Longrightarrow> valid_selection (select_player g k ks i)"
  by (induction ks arbitrary: g i) (auto simp: valid_selection_def)

lemma remove_at_point_None:
  "shipAtPoint ps px py = None \<Longrightarrow> remove_at_point ps px py b = (ps, b)"
  by (subst remove_at_point.simps) simp

lemma remove_at_point_Some:
  "shipAtPoint ps px py = Some e \<Longrightarrow>
   remove_at_point ps px py b =
     (if length ps > 1 then remove_at_point (remove1 e ps) px py True else (ps, b))"
  by (subst remove_at_point.simps) simp

lemma remove_at_point_single: "remove_at_point [s] px py b = ([s], b)"
  by (subst remove_at_point.simps) (simp split: option.splits)

lemma remove_at_point_length:
  "1 \<le> length ps \<Longrightarrow>
   1 \<le> length (fst (remove_at_point ps px py b)) \<and>
   length (fst (remove_at_point ps px py b)) \<le> length ps"
proof (induction ps px py b rule: remove_at_point.induct)
  case (1 ps px py shipWasThere)
  show ?case
  proof (cases "shipAtPoint ps px py")
    case None
    then show ?thesis
      using 1 by (simp add: remove_at_point_None)
  next
    case (Some e)
    show ?thesis
    proof (cases "length ps > 1")
      case True
      have "1 \<le> length (remove1 e ps)"
        using True by (auto simp: length_remove1)
      moreover have "length (remove1 e ps) \<le> length ps"
        by (simp add: length_remove1)
      ultimately show ?thesis
        using "1.IH" [OF Some True] Some True
        by (simp add: remove_at_point_Some)
    next
      case False
      then show ?thesis
        using Some 1 by (simp add: remove_at_point_Some)
    qed
  qed
qed

lemma remove_extra_Cons: "remove_extra (p # rest) = [p]"
proof (induction "length rest" arbitrary: rest)
  case 0
  then show ?case
    by (subst remove_extra.simps) simp
next
  case (Suc n)
  then obtain r rs where rest: "rest = r # rs"
    by (cases rest) auto
  have "remove1 ((p # rest) ! 1) (p # rest) = p # rs"
    by (simp add: rest)
  moreover have "remove_extra (p # rs) = [p]"
    using Suc rest by simp
  ultimately show ?case
    by (subst remove_extra.simps) (simp add: rest)
qed

lemma clamp_selection_eq:
  "clamp_selection i ps = (if i \<ge> int (length ps) then int (length ps) - 1 else i)"
proof (induction i ps rule: clamp_selection.induct)
  case (1 i ps)
  then show ?case
    by (subst clamp_selection.simps) auto
qed

section \<open>Properties of the scene\<close>

lemmas scene_defs =
  Game_def Ship_def reset_def Point_def Velocity_def sample_draw_def other_draw_def at_time_def
  on_key_press_def key_action_def NUMBER_KEYS_def with_first_def
  on_mouse_press_def manageShipList_def manipulateMainShip_def subscript_def
  grid_cell_def PIXELS_PER_GRID_def MAX_NUMBER_OF_SHIPS_def
  advance_def wrapOffScreen_def SCREEN_WIDTH_def SCREEN_HEIGHT_def

lemma point_update_all: "(c :: point)\<lparr>x := a, y := b\<rparr> = \<lparr>x = a, y = b\<rparr>"
  by (cases c) simp

lemma wrapOffScreen_velocity: "velocity (wrapOffScreen s) = velocity s"
  by (simp add: wrapOffScreen_def Let_def)

lemma advance_all_key:
  "on_key_press g d A =
     Inr (g\<lparr>g_alpha := 0, players := map (advance (WRAP_AROUND_SCREEN g)) (players g)\<rparr>)"
  by (simp add: on_key_press_def key_action_def NUMBER_KEYS_def)

text \<open>
  C7 is not settled in this theory. The A key sets the opacity \<open>g_alpha\<close> to 0, its
  least value, and applies \<open>advance\<close> once to every ship of the list, in order, and
  nothing else changes (\<open>advance_all_key\<close> above). But by how much a centre moves is
  the result of \<open>+=\<close> on Python numbers: on floats the sum is rounded to a double, and
  this theory has the exact sum only.
\<close>

lemma map_fixpoint_iff: "map f xs = xs \<longleftrightarrow> (\<forall>a \<in> set xs. f a = a)"
  by (induction xs) auto

lemma toggle_wrap_key:
  "on_key_press g d W =
     Inr (g\<lparr>WRAP_AROUND_SCREEN := \<not> WRAP_AROUND_SCREEN g,
            players := map wrapOffScreen (players g)\<rparr>)"
  by (simp add: on_key_press_def key_action_def NUMBER_KEYS_def)

lemma wrapOffScreen_twice: "wrapOffScreen (wrapOffScreen s) = wrapOffScreen s"
  using wrapOffScreen_on_screen [of s] by (simp only: wrapOffScreen_fixpoint)

text \<open>
  C8 as stated fails for a ship that has left the grid. With wrapping switched off, the
  sample ship advances from \<open>x = 10\<close> to \<open>x = 13\<close>; two presses of W then leave the
  flag off and the ship at \<open>x = 0\<close>.
\<close>

theorem C8_toggle_wrap_twice_counterexample:
  "run (Game sample_draw 0) [(at_time 0, KeyPress W), (at_time 0, KeyPress A)] =
     Inr 
     \<lparr>players = [\<lparr>center = \<lparr>x = 13, y = 5\<rparr>, velocity = \<lparr>dx = PyInt 3, dy = PyInt 0\<rparr>\<rparr>],
     detailed = False, constantUpdate = False, advanceTimer = 0,
     playerToManipulate = 0, timeMouseReleased = 0, g_alpha = 0,
     drawHelpWindow = False, held_keys = {}, WRAP_AROUND_SCREEN = False\<rparr> \<and>
   run 
     \<lparr>players = [\<lparr>center = \<lparr>x = 13, y = 5\<rparr>, velocity = \<lparr>dx = PyInt 3, dy = PyInt 0\<rparr>\<rparr>],
     detailed = False, constantUpdate = False, advanceTimer = 0,
     playerToManipulate = 0, timeMouseReleased = 0, g_alpha = 0,
     drawHelpWindow = False, held_keys = {}, WRAP_AROUND_SCREEN = False\<rparr> [(at_time 0, KeyPress W), (at_time 0, KeyPress W)] =
     Inr 
     \<lparr>players = [\<lparr>center = \<lparr>x = 0, y = 5\<rparr>, velocity = \<lparr>dx = PyInt 3, dy = PyInt 0\<rparr>\<rparr>],
     detailed = False, constantUpdate = False, advanceTimer = 0,
     playerToManipulate = 0, timeMouseReleased = 0, g_alpha = 0,
     drawHelpWindow = False, held_keys = {}, WRAP_AROUND_SCREEN = False\<rparr> \<and>
   map center (players 
     \<lparr>players = [\<lparr>center = \<lparr>x = 0, y = 5\<rparr>, velocity = \<lparr>dx = PyInt 3, dy = PyInt 0\<rparr>\<rparr>],
     detailed = False, constantUpdate = False, advanceTimer = 0,
     playerToManipulate = 0, timeMouseReleased = 0, g_alpha = 0,
     drawHelpWindow = False, held_keys = {}, WRAP_AROUND_SCREEN = False\<rparr>) \<noteq> map center (players 
     \<lparr>players = [\<lparr>center = \<lparr>x = 13, y = 5\<rparr>, velocity = \<lparr>dx = PyInt 3, dy = PyInt 0\<rparr>\<rparr>],
     detailed = False, constantUpdate = False, advanceTimer = 0,
     playerToManipulate = 0, timeMouseReleased = 0, g_alpha = 0,
     drawHelpWindow = False, held_keys = {}, WRAP_AROUND_SCREEN = False\<rparr>)"
  by (simp add: scene_defs)

text \<open>
  C8, as amended. Pressing W twice returns the wrap flag to its value. Each press flips
  the flag and applies \<open>wrapOffScreen\<close> to every ship, so after the two presses the
  scene is the original one with every ship wrapped once: the second press moves
  nothing, and the positions are the original ones exactly when every ship was within
  the grid on both axes.
\<close>

theorem C8_toggle_wrap_twice:
  "\<exists>g1 g2. on_key_press g d1 W = Inr g1 \<and> on_key_press g1 d2 W = Inr g2 \<and>
     WRAP_AROUND_SCREEN g1 = (\<not> WRAP_AROUND_SCREEN g) \<and>
     players g1 = map wrapOffScreen (players g) \<and>
     WRAP_AROUND_SCREEN g2 = WRAP_AROUND_SCREEN g \<and>
     players g2 = players g1 \<and>
     g2 = g\<lparr>players := map wrapOffScreen (players g)\<rparr> \<and>
     ((players g2 = players g) = (\<forall>s \<in> set (players g). on_screen s))"
proof -
  let ?g1 = "g\<lparr>WRAP_AROUND_SCREEN := \<not> WRAP_AROUND_SCREEN g,
               players := map wrapOffScreen (players g)\<rparr>"
  let ?g2 = "g\<lparr>players := map wrapOffScreen (players g)\<rparr>"
  have first: "on_key_press g d1 W = Inr ?g1"
    by (rule toggle_wrap_key)
  have "on_key_press ?g1 d2 W = Inr (?g1\<lparr>WRAP_AROUND_SCREEN := \<not> WRAP_AROUND_SCREEN ?g1,
            players := map wrapOffScreen (players ?g1)\<rparr>)"
    by (rule toggle_wrap_key)
  then have second: "on_key_press ?g1 d2 W = Inr ?g2"
    by (simp add: wrapOffScreen_twice)
  have "(players ?g2 = players g) = (\<forall>s \<in> set (players g). on_screen s)"
    by (simp add: map_fixpoint_iff wrapOffScreen_fixpoint)
  with first second show ?thesis
    by (intro exI [of _ ?g1] exI [of _ ?g2]) simp
qed

theorem C8_toggle_wrap_twice_witness:
  "on_screen (hd (players (Game sample_draw 0))) \<and>
   length (players (Game sample_draw 0)) = 1 \<and>
   (\<exists>g1. on_key_press (Game sample_draw 0) sample_draw W = Inr g1 \<and>
      on_key_press g1 sample_draw W = Inr (Game sample_draw 0))"
proof -
  have inside: "\<forall>s \<in> set (players (Game sample_draw 0)). on_screen s"
    by (simp add: scene_defs on_screen_def)
  obtain g1 g2 where first: "on_key_press (Game sample_draw 0) sample_draw W = Inr g1"
    and second: "on_key_press g1 sample_draw W = Inr g2"
    and whole: "g2 = (Game sample_draw 0)\<lparr>players := map wrapOffScreen (players (Game sample_draw 0))\<rparr>"
    and same: "(players g2 = players (Game sample_draw 0)) =
      (\<forall>s \<in> set (players (Game sample_draw 0)). on_screen s)"
    using C8_toggle_wrap_twice [of "Game sample_draw 0" sample_draw sample_draw] by blast
  have "players g2 = players (Game sample_draw 0)"
    using same inside by simp
  then have "g2 = Game sample_draw 0"
    using whole by simp
  then have "\<exists>g1. on_key_press (Game sample_draw 0) sample_draw W = Inr g1 \<and>
      on_key_press g1 sample_draw W = Inr (Game sample_draw 0)"
    using first second by blast
  moreover have "on_screen (hd (players (Game sample_draw 0)))"
    and "length (players (Game sample_draw 0)) = 1"
    by (simp_all add: scene_defs on_screen_def)
  ultimately show ?thesis
    by simp
qed

section \<open>The number of ships\<close>

lemma remove_at_point_True: "snd (remove_at_point ps px py True) = True"
proof (induction ps px py "True" rule: remove_at_point.induct)
  case (1 ps px py)
  show ?case
  proof (cases "shipAtPoint ps px py")
    case None
    then show ?thesis
      by (simp add: remove_at_point_None)
  next
    case (Some e)
    then show ?thesis
      using 1 by (simp add: remove_at_point_Some)
  qed
qed

lemma remove_at_point_untouched:
  "\<not> snd (remove_at_point ps px py False) \<Longrightarrow> fst (remove_at_point ps px py False) = ps"
proof (cases "shipAtPoint ps px py")
  case None
  then show ?thesis
    by (simp add: remove_at_point_None)
next
  case (Some e)
  assume "\<not> snd (remove_at_point ps px py False)"
  then show ?thesis
    using Some remove_at_point_True [of "remove1 e ps" px py]
    by (simp add: remove_at_point_Some split: if_splits)
qed

lemma manageShipList_count:
  assumes "count_ok g"
  shows "count_ok (manageShipList g d px py)"
proof -
  obtain ps b where r: "remove_at_point (players g) px py False = (ps, b)"
    by (cases "remove_at_point (players g) px py False")
  have "1 \<le> length ps \<and> length ps \<le> length (players g)"
    using remove_at_point_length [of "players g" px py False] assms r
    by (simp add: count_ok_def)
  then show ?thesis
    using assms r by (auto simp: manageShipList_def count_ok_def Let_def)
qed

lemma manipulateMainShip_players:
  "manipulateMainShip g t px py = Inr g' \<Longrightarrow> length (players g') = length (players g)"
  by (auto simp: manipulateMainShip_def Let_def split: sum.splits if_splits)

lemma key_action_count:
  assumes "count_ok g" and "key_action g d k = Inr g'"
  shows "count_ok g'"
  using assms
  by (auto simp: key_action_def with_first_def count_ok_def remove_extra_Cons
      MAX_NUMBER_OF_SHIPS_def Let_def split: if_splits list.splits)

lemma on_key_press_count:
  assumes "count_ok g" and "on_key_press g d k = Inr g'"
  shows "count_ok g'"
proof -
  obtain g1 where "key_action g d k = Inr g1" and "g' = select_player g1 k NUMBER_KEYS 0"
    using assms(2) by (auto simp: on_key_press_def split: sum.splits)
  then show ?thesis
    using key_action_count [OF assms(1)] by (simp add: count_ok_def select_player_players)
qed

lemma update_players_length: "length (players (update g)) = length (players g)"
  by (simp add: update_def Let_def)

lemma handle_count:
  assumes "count_ok g" and "handle g step = Inr g'"
  shows "count_ok g'"
proof -
  obtain e ev where step: "step = (e, ev)"
    by (cases step)
  show ?thesis
  proof (cases ev)
    case (KeyPress k)
    then show ?thesis
      using assms step on_key_press_count by auto
  next
    case (KeyRelease k)
    then show ?thesis
      using assms step by (auto simp: on_key_release_def count_ok_def Let_def)
  next
    case (MousePress mx my b)
    then show ?thesis
      using assms step manageShipList_count [OF assms(1)]
        manipulateMainShip_players [of g "clock e" "grid_cell mx" "grid_cell my" g']
      by (auto simp: on_mouse_press_def Let_def count_ok_def split: if_splits)
  next
    case (MouseRelease mx my b)
    then show ?thesis
      using assms step by (auto simp: on_mouse_release_def count_ok_def)
  next
    case Update
    then show ?thesis
      using assms step by (auto simp: count_ok_def update_players_length)
  qed
qed

lemma run_count:
  "count_ok g \<Longrightarrow> run g steps = Inr g' \<Longrightarrow> count_ok g'"
proof (induction steps arbitrary: g)
  case Nil
  then show ?case by simp
next
  case (Cons step rest)
  then show ?case
    by (auto split: sum.splits dest: handle_count)
qed

lemma Game_count: "count_ok (Game d now)"
  by (simp add: count_ok_def Game_def MAX_NUMBER_OF_SHIPS_def)

lemma full_click_dropped:
  assumes "length (players g) = MAX_NUMBER_OF_SHIPS"
    and "shipAtPoint (players g) px py = None"
  shows "manageShipList g d px py = g"
  using assms by (simp add: manageShipList_def remove_at_point_None)

text \<open>
  C4. After every run of callbacks from the initial scene the list holds between 1 and 9
  ships. In such a scene a right click on an empty cell while 9 ships exist changes
  nothing, and whatever a right click removes, at least one ship is left.
\<close>

theorem C4_ship_count_bounds:
  assumes "run (Game d now) steps = Inr g"
  shows "1 \<le> length (players g) \<and> length (players g) \<le> 9 \<and>
    (length (players g) = 9 \<and>
       shipAtPoint (players g) (grid_cell mx) (grid_cell my) = None \<longrightarrow>
       on_mouse_press g d' t mx my MOUSE_BUTTON_RIGHT = Inr g) \<and>
    (\<exists>g'. on_mouse_press g d' t mx my MOUSE_BUTTON_RIGHT = Inr g' \<and>
       1 \<le> length (players g') \<and> length (players g') \<le> 9)"
proof -
  have ok: "count_ok g"
    using run_count [OF Game_count assms] .
  have press: "on_mouse_press g d' t mx my MOUSE_BUTTON_RIGHT =
      Inr (manageShipList g d' (grid_cell mx) (grid_cell my))"
    by (simp add: on_mouse_press_def)
  have "count_ok (manageShipList g d' (grid_cell mx) (grid_cell my))"
    using ok by (rule manageShipList_count)
  moreover have "length (players g) = 9 \<and>
       shipAtPoint (players g) (grid_cell mx) (grid_cell my) = None \<longrightarrow>
       manageShipList g d' (grid_cell mx) (grid_cell my) = g"
    using full_click_dropped [of g "grid_cell mx" "grid_cell my" d']
    by (simp add: MAX_NUMBER_OF_SHIPS_def)
  ultimately show ?thesis
    using ok press by (simp add: count_ok_def MAX_NUMBER_OF_SHIPS_def)
qed


theorem C4_ship_count_bounds_witness:
  "run (Game sample_draw 0)
     [(at_time 0, MousePress 10 10 MOUSE_BUTTON_RIGHT),
      (at_time 0, MousePress 85 10 MOUSE_BUTTON_RIGHT),
      (at_time 0, MousePress 160 10 MOUSE_BUTTON_RIGHT),
      (at_time 0, MousePress 235 10 MOUSE_BUTTON_RIGHT),
      (at_time 0, MousePress 310 10 MOUSE_BUTTON_RIGHT),
      (at_time 0, MousePress 385 10 MOUSE_BUTTON_RIGHT),
      (at_time 0, MousePress 460 10 MOUSE_BUTTON_RIGHT),
      (at_time 0, MousePress 535 10 MOUSE_BUTTON_RIGHT),
      (at_time 0, MousePress 610 10 MOUSE_BUTTON_RIGHT),
      (at_time 0, MousePress 685 10 MOUSE_BUTTON_RIGHT)] =
   Inr \<lparr>players = [\<lparr>center = \<lparr>x = 10, y = 5\<rparr>, velocity = \<lparr>dx = PyInt 3, dy = PyInt 0\<rparr>\<rparr>,
        \<lparr>center = \<lparr>x = 0, y = 0\<rparr>, velocity = \<lparr>dx = PyInt 3, dy = PyInt 0\<rparr>\<rparr>,
        \<lparr>center = \<lparr>x = 1, y = 0\<rparr>, velocity = \<lparr>dx = PyInt 3, dy = PyInt 0\<rparr>\<rparr>,
        \<lparr>center = \<lparr>x = 2, y = 0\<rparr>, velocity = \<lparr>dx = PyInt 3, dy = PyInt 0\<rparr>\<rparr>,
        \<lparr>center = \<lparr>x = 3, y = 0\<rparr>, velocity = \<lparr>dx = PyInt 3, dy = PyInt 0\<rparr>\<rparr>,
        \<lparr>center = \<lparr>x = 4, y = 0\<rparr>, velocity = \<lparr>dx = PyInt 3, dy = PyInt 0\<rparr>\<rparr>,
        \<lparr>center = \<lparr>x = 5, y = 0\<rparr>, velocity = \<lparr>dx = PyInt 3, dy = PyInt 0\<rparr>\<rparr>,
        \<lparr>center = \<lparr>x = 6, y = 0\<rparr>, velocity = \<lparr>dx = PyInt 3, dy = PyInt 0\<rparr>\<rparr>,
        \<lparr>center = \<lparr>x = 7, y = 0\<rparr>, velocity = \<lparr>dx = PyInt 3, dy = PyInt 0\<rparr>\<rparr>],
       detailed = False, constantUpdate = False, advanceTimer = 0,
       playerToManipulate = 0, timeMouseReleased = 0, g_alpha = 255,
       drawHelpWindow = False, held_keys = {}, WRAP_AROUND_SCREEN = True\<rparr> \<and>
   on_mouse_press
     \<lparr>players = [\<lparr>center = \<lparr>x = 10, y = 5\<rparr>, velocity = \<lparr>dx = PyInt 3, dy = PyInt 0\<rparr>\<rparr>,
        \<lparr>center = \<lparr>x = 0, y = 0\<rparr>, velocity = \<lparr>dx = PyInt 3, dy = PyInt 0\<rparr>\<rparr>,
        \<lparr>center = \<lparr>x = 1, y = 0\<rparr>, velocity = \<lparr>dx = PyInt 3, dy = PyInt 0\<rparr>\<rparr>,
        \<lparr>center = \<lparr>x = 2, y = 0\<rparr>, velocity = \<lparr>dx = PyInt 3, dy = PyInt 0\<rparr>\<rparr>,
        \<lparr>center = \<lparr>x = 3, y = 0\<rparr>, velocity = \<lparr>dx = PyInt 3, dy = PyInt 0\<rparr>\<rparr>,
        \<lparr>center = \<lparr>x = 4, y = 0\<rparr>, velocity = \<lparr>dx = PyInt 3, dy = PyInt 0\<rparr>\<rparr>,
        \<lparr>center = \<lparr>x = 5, y = 0\<rparr>, velocity = \<lparr>dx = PyInt 3, dy = PyInt 0\<rparr>\<rparr>,
        \<lparr>center = \<lparr>x = 6, y = 0\<rparr>, velocity = \<lparr>dx = PyInt 3, dy = PyInt 0\<rparr>\<rparr>,
        \<lparr>center = \<lparr>x = 7, y = 0\<rparr>, velocity = \<lparr>dx = PyInt 3, dy = PyInt 0\<rparr>\<rparr>],
       detailed = False, constantUpdate = False, advanceTimer = 0,
       playerToManipulate = 0, timeMouseReleased = 0, g_alpha = 255,
       drawHelpWindow = False, held_keys = {}, WRAP_AROUND_SCREEN = True\<rparr> other_draw 0 760 10 MOUSE_BUTTON_RIGHT =
   Inr \<lparr>players = [\<lparr>center = \<lparr>x = 10, y = 5\<rparr>, velocity = \<lparr>dx = PyInt 3, dy = PyInt 0\<rparr>\<rparr>,
        \<lparr>center = \<lparr>x = 0, y = 0\<rparr>, velocity = \<lparr>dx = PyInt 3, dy = PyInt 0\<rparr>\<rparr>,
        \<lparr>center = \<lparr>x = 1, y = 0\<rparr>, velocity = \<lparr>dx = PyInt 3, dy = PyInt 0\<rparr>\<rparr>,
        \<lparr>center = \<lparr>x = 2, y = 0\<rparr>, velocity = \<lparr>dx = PyInt 3, dy = PyInt 0\<rparr>\<rparr>,
        \<lparr>center = \<lparr>x = 3, y = 0\<rparr>, velocity = \<lparr>dx = PyInt 3, dy = PyInt 0\<rparr>\<rparr>,
        \<lparr>center = \<lparr>x = 4, y = 0\<rparr>, velocity = \<lparr>dx = PyInt 3, dy = PyInt 0\<rparr>\<rparr>,
        \<lparr>center = \<lparr>x = 5, y = 0\<rparr>, velocity = \<lparr>dx = PyInt 3, dy = PyInt 0\<rparr>\<rparr>,
        \<lparr>center = \<lparr>x = 6, y = 0\<rparr>, velocity = \<lparr>dx = PyInt 3, dy = PyInt 0\<rparr>\<rparr>,
        \<lparr>center = \<lparr>x = 7, y = 0\<rparr>, velocity = \<lparr>dx = PyInt 3, dy = PyInt 0\<rparr>\<rparr>],
       detailed = False, constantUpdate = False, advanceTimer = 0,
       playerToManipulate = 0, timeMouseReleased = 0, g_alpha = 255,
       drawHelpWindow = False, held_keys = {}, WRAP_AROUND_SCREEN = True\<rparr>"
proof -
  have full: "run (Game sample_draw 0)
     [(at_time 0, MousePress 10 10 MOUSE_BUTTON_RIGHT),
      (at_time 0, MousePress 85 10 MOUSE_BUTTON_RIGHT),
      (at_time 0, MousePress 160 10 MOUSE_BUTTON_RIGHT),
      (at_time 0, MousePress 235 10 MOUSE_BUTTON_RIGHT),
      (at_time 0, MousePress 310 10 MOUSE_BUTTON_RIGHT),
      (at_time 0, MousePress 385 10 MOUSE_BUTTON_RIGHT),
      (at_time 0, MousePress 460 10 MOUSE_BUTTON_RIGHT),
      (at_time 0, MousePress 535 10 MOUSE_BUTTON_RIGHT),
      (at_time 0, MousePress 610 10 MOUSE_BUTTON_RIGHT),
      (at_time 0, MousePress 685 10 MOUSE_BUTTON_RIGHT)] =
   Inr \<lparr>players = [\<lparr>center = \<lparr>x = 10, y = 5\<rparr>, velocity = \<lparr>dx = PyInt 3, dy = PyInt 0\<rparr>\<rparr>,
        \<lparr>center = \<lparr>x = 0, y = 0\<rparr>, velocity = \<lparr>dx = PyInt 3, dy = PyInt 0\<rparr>\<rparr>,
        \<lparr>center = \<lparr>x = 1, y = 0\<rparr>, velocity = \<lparr>dx = PyInt 3, dy = PyInt 0\<rparr>\<rparr>,
        \<lparr>center = \<lparr>x = 2, y = 0\<rparr>, velocity = \<lparr>dx = PyInt 3, dy = PyInt 0\<rparr>\<rparr>,
        \<lparr>center = \<lparr>x = 3, y = 0\<rparr>, velocity = \<lparr>dx = PyInt 3, dy = PyInt 0\<rparr>\<rparr>,
        \<lparr>center = \<lparr>x = 4, y = 0\<rparr>, velocity = \<lparr>dx = PyInt 3, dy = PyInt 0\<rparr>\<rparr>,
        \<lparr>center = \<lparr>x = 5, y = 0\<rparr>, velocity = \<lparr>dx = PyInt 3, dy = PyInt 0\<rparr>\<rparr>,
        \<lparr>center = \<lparr>x = 6, y = 0\<rparr>, velocity = \<lparr>dx = PyInt 3, dy = PyInt 0\<rparr>\<rparr>,
        \<lparr>center = \<lparr>x = 7, y = 0\<rparr>, velocity = \<lparr>dx = PyInt 3, dy = PyInt 0\<rparr>\<rparr>],
       detailed = False, constantUpdate = False, advanceTimer = 0,
       playerToManipulate = 0, timeMouseReleased = 0, g_alpha = 255,
       drawHelpWindow = False, held_keys = {}, WRAP_AROUND_SCREEN = True\<rparr>"
    by (simp add: scene_defs remove_at_point_None)
  show ?thesis
    using full C4_ship_count_bounds [OF full, of 760 10 other_draw 0]
    by (simp add: grid_cell_def PIXELS_PER_GRID_def)
qed

section \<open>A right click on the last ship\<close>

lemma new_ship_at:
  "(Ship d)\<lparr>center := (center (Ship d))\<lparr>x := px, y := py\<rparr>\<rparr> =
     \<lparr>center = \<lparr>x = px, y = py\<rparr>,
      velocity = \<lparr>dx = PyInt (rand_dx d), dy = PyInt (rand_dy d)\<rparr>\<rparr>"
  by (simp add: Ship_def reset_def Point_def Velocity_def)

lemma shipAtPoint_member: "shipAtPoint ps px py = Some e \<Longrightarrow> e \<in> set ps"
  by (induction ps) (auto split: if_splits)

text \<open>
  A right click on a cell that a ship occupies, while the list holds more than one ship,
  removes and creates nothing: the list gets shorter. This holds for a cell with one
  ship and for ships stacked on one cell, down to the last ship of the list.
\<close>

lemma click_on_occupied_cell:
  assumes "shipAtPoint (players g) px py = Some e" and "1 < length (players g)"
  shows "length (players (manageShipList g d px py)) < length (players g)"
proof -
  obtain ps b where r: "remove_at_point (remove1 e (players g)) px py True = (ps, b)"
    by (cases "remove_at_point (remove1 e (players g)) px py True")
  have whole: "remove_at_point (players g) px py False = (ps, b)"
    using assms r by (simp add: remove_at_point_Some)
  have "b"
    using remove_at_point_True [of "remove1 e (players g)" px py] r by simp
  have "e \<in> set (players g)"
    using assms(1) by (rule shipAtPoint_member)
  then have shorter: "length (remove1 e (players g)) = length (players g) - 1"
    by (simp add: length_remove1)
  then have "1 \<le> length (remove1 e (players g))"
    using assms(2) by simp
  then have "length ps \<le> length (remove1 e (players g))"
    using remove_at_point_length [of "remove1 e (players g)" px py True] r by simp
  then have "length ps < length (players g)"
    using shorter assms(2) by simp
  then show ?thesis
    using whole \<open>b\<close> by (simp add: manageShipList_def)
qed

text \<open>
  On the cell of the only ship the loop of \<open>manageShipList\<close> does not run, the flag
  \<open>shipWasThere\<close> stays false although a ship was there, and the branch that creates a
  ship runs: the ship and the selected index stay as they are, and a second ship is
  appended on the same cell.
\<close>

lemma click_on_last_ship:
  assumes "players g = [s]"
    and "x (center s) = grid_cell mx" and "y (center s) = grid_cell my"
  shows "on_mouse_press g d now mx my MOUSE_BUTTON_RIGHT =
     Inr (g\<lparr>players :=
            [s, \<lparr>center = \<lparr>x = grid_cell mx, y = grid_cell my\<rparr>,
                 velocity = \<lparr>dx = PyInt (rand_dx d), dy = PyInt (rand_dy d)\<rparr>\<rparr>]\<rparr>)"
  using assms
  by (simp add: on_mouse_press_def manageShipList_def remove_at_point_single
      MAX_NUMBER_OF_SHIPS_def new_ship_at)

text \<open>
  C3. A right click on the cell of the only ship does not leave the list as it was. The
  initial scene has one ship, at cell \<open>(10, 5)\<close>; a right click on that cell leaves two
  ships in the list, the new one on top of the first. No removal took place, as the
  claim says, but a ship was created on an occupied cell, which no other right click
  does (\<open>click_on_occupied_cell\<close>).
\<close>

theorem C3_click_on_last_ship_stacks:
  "players (Game sample_draw 0) = [\<lparr>center = \<lparr>x = 10, y = 5\<rparr>, velocity = \<lparr>dx = PyInt 3, dy = PyInt 0\<rparr>\<rparr>] \<and>
   grid_cell 750 = 10 \<and> grid_cell 375 = 5 \<and>
   on_mouse_press (Game sample_draw 0) other_draw 0 750 375 MOUSE_BUTTON_RIGHT =
     Inr \<lparr>players = [\<lparr>center = \<lparr>x = 10, y = 5\<rparr>, velocity = \<lparr>dx = PyInt 3, dy = PyInt 0\<rparr>\<rparr>,
          \<lparr>center = \<lparr>x = 10, y = 5\<rparr>, velocity = \<lparr>dx = PyInt (- 1), dy = PyInt 2\<rparr>\<rparr>],
         detailed = False, constantUpdate = False, advanceTimer = 0,
         playerToManipulate = 0, timeMouseReleased = 0, g_alpha = 255,
         drawHelpWindow = False, held_keys = {}, WRAP_AROUND_SCREEN = True\<rparr> \<and>
   length (players \<lparr>players = [\<lparr>center = \<lparr>x = 10, y = 5\<rparr>, velocity = \<lparr>dx = PyInt 3, dy = PyInt 0\<rparr>\<rparr>,
          \<lparr>center = \<lparr>x = 10, y = 5\<rparr>, velocity = \<lparr>dx = PyInt (- 1), dy = PyInt 2\<rparr>\<rparr>],
         detailed = False, constantUpdate = False, advanceTimer = 0,
         playerToManipulate = 0, timeMouseReleased = 0, g_alpha = 255,
         drawHelpWindow = False, held_keys = {}, WRAP_AROUND_SCREEN = True\<rparr>) = 2"
  by (simp add: scene_defs remove_at_point_single)

section \<open>The reset command and the selected index\<close>

lemma reset_key:
  assumes "players g = p # rest"
  shows "on_key_press g d SPACE = Inr (g\<lparr>players := [reset d p]\<rparr>)"
  using assms
  by (simp add: on_key_press_def key_action_def with_first_def remove_extra_Cons NUMBER_KEYS_def)

lemma reset_in_range:
  assumes "valid_draw d"
  shows "2 \<le> x (center (reset d p)) \<and> x (center (reset d p)) \<le> of_int SCREEN_WIDTH - 2 \<and>
    2 \<le> y (center (reset d p)) \<and> y (center (reset d p)) \<le> of_int SCREEN_HEIGHT - 2 \<and>
    dx (velocity (reset d p)) \<in> PyInt ` {- 3 .. 3} \<and>
    dy (velocity (reset d p)) \<in> PyInt ` {- 3 .. 3}"
proof -
  have "real_of_int 2 \<le> of_int (rand_x d)" and "real_of_int (rand_x d) \<le> of_int (SCREEN_WIDTH - 2)"
    and "real_of_int 2 \<le> of_int (rand_y d)" and "real_of_int (rand_y d) \<le> of_int (SCREEN_HEIGHT - 2)"
    using assms unfolding valid_draw_def of_int_le_iff by simp_all
  then show ?thesis
    using assms by (simp add: reset_def valid_draw_def)
qed

text \<open>
  C1. The selected index is not always within the list. From the initial scene, a right
  click on the empty cell \<open>(5, 5)\<close> creates a second ship, the key 2 selects it, and
  SPACE removes it without touching the index: the list has one ship and the index is 1.
  The next left click raises IndexError. The lemmas \<open>handle_valid_selection\<close> and
  \<open>reset_valid_selection\<close> below show that SPACE with a selection other than the
  first ship is the only callback that breaks the invariant.
\<close>

theorem C1_reset_keeps_selection:
  "run (Game sample_draw 0)
     [(at_time 0, MousePress 400 400 MOUSE_BUTTON_RIGHT),
      (at_time 0, KeyPress KEY_2),
      (at_time 0, KeyPress SPACE)] =
   Inr \<lparr>players = [\<lparr>center = \<lparr>x = 10, y = 5\<rparr>, velocity = \<lparr>dx = PyInt 3, dy = PyInt 0\<rparr>\<rparr>],
       detailed = False, constantUpdate = False, advanceTimer = 0,
       playerToManipulate = 1, timeMouseReleased = 0, g_alpha = 255,
       drawHelpWindow = False, held_keys = {}, WRAP_AROUND_SCREEN = True\<rparr> \<and>
   \<not> valid_selection
     \<lparr>players = [\<lparr>center = \<lparr>x = 10, y = 5\<rparr>, velocity = \<lparr>dx = PyInt 3, dy = PyInt 0\<rparr>\<rparr>],
       detailed = False, constantUpdate = False, advanceTimer = 0,
       playerToManipulate = 1, timeMouseReleased = 0, g_alpha = 255,
       drawHelpWindow = False, held_keys = {}, WRAP_AROUND_SCREEN = True\<rparr> \<and>
   handle
     \<lparr>players = [\<lparr>center = \<lparr>x = 10, y = 5\<rparr>, velocity = \<lparr>dx = PyInt 3, dy = PyInt 0\<rparr>\<rparr>],
       detailed = False, constantUpdate = False, advanceTimer = 0,
       playerToManipulate = 1, timeMouseReleased = 0, g_alpha = 255,
       drawHelpWindow = False, held_keys = {}, WRAP_AROUND_SCREEN = True\<rparr>
     (at_time 5000, MousePress 400 400 MOUSE_BUTTON_LEFT) = Inl IndexError"
  by (simp add: scene_defs remove_at_point_None remove_extra_Cons valid_selection_def)

text \<open>
  C2. SPACE leaves exactly one ship, the first one after \<open>reset\<close> (lemma
  \<open>reset_key\<close>, with the ranges of \<open>reset_in_range\<close>), but does not assign the selected
  index: with three ships and the third selected, the index is still 2 afterwards.
\<close>

theorem C2_reset_command:
  "run (Game sample_draw 0)
     [(at_time 0, MousePress 400 400 MOUSE_BUTTON_RIGHT),
      (at_time 0, MousePress 100 100 MOUSE_BUTTON_RIGHT),
      (at_time 0, KeyPress KEY_3)] =
   Inr \<lparr>players = [\<lparr>center = \<lparr>x = 10, y = 5\<rparr>, velocity = \<lparr>dx = PyInt 3, dy = PyInt 0\<rparr>\<rparr>,
        \<lparr>center = \<lparr>x = 5, y = 5\<rparr>, velocity = \<lparr>dx = PyInt 3, dy = PyInt 0\<rparr>\<rparr>,
        \<lparr>center = \<lparr>x = 1, y = 1\<rparr>, velocity = \<lparr>dx = PyInt 3, dy = PyInt 0\<rparr>\<rparr>],
       detailed = False, constantUpdate = False, advanceTimer = 0,
       playerToManipulate = 2, timeMouseReleased = 0, g_alpha = 255,
       drawHelpWindow = False, held_keys = {}, WRAP_AROUND_SCREEN = True\<rparr> \<and>
   valid_draw other_draw \<and>
   on_key_press
     \<lparr>players = [\<lparr>center = \<lparr>x = 10, y = 5\<rparr>, velocity = \<lparr>dx = PyInt 3, dy = PyInt 0\<rparr>\<rparr>,
        \<lparr>center = \<lparr>x = 5, y = 5\<rparr>, velocity = \<lparr>dx = PyInt 3, dy = PyInt 0\<rparr>\<rparr>,
        \<lparr>center = \<lparr>x = 1, y = 1\<rparr>, velocity = \<lparr>dx = PyInt 3, dy = PyInt 0\<rparr>\<rparr>],
       detailed = False, constantUpdate = False, advanceTimer = 0,
       playerToManipulate = 2, timeMouseReleased = 0, g_alpha = 255,
       drawHelpWindow = False, held_keys = {}, WRAP_AROUND_SCREEN = True\<rparr> other_draw SPACE =
   Inr \<lparr>players = [\<lparr>center = \<lparr>x = 4, y = 8\<rparr>, velocity = \<lparr>dx = PyInt (- 1), dy = PyInt 2\<rparr>\<rparr>],
       detailed = False, constantUpdate = False, advanceTimer = 0,
       playerToManipulate = 2, timeMouseReleased = 0, g_alpha = 255,
       drawHelpWindow = False, held_keys = {}, WRAP_AROUND_SCREEN = True\<rparr>"
  by (simp add: scene_defs remove_at_point_None remove_extra_Cons valid_draw_def)


text \<open>
  Every other callback keeps the selected index within the list, and with the index
  within the list no callback raises.
\<close>

lemma manageShipList_valid:
  assumes "count_ok g" and "valid_selection g"
  shows "valid_selection (manageShipList g d px py)"
proof -
  obtain ps b where r: "remove_at_point (players g) px py False = (ps, b)"
    by (cases "remove_at_point (players g) px py False")
  have len: "1 \<le> length ps"
    using remove_at_point_length [of "players g" px py False] assms(1) r
    by (simp add: count_ok_def)
  show ?thesis
  proof (cases b)
    case True
    then show ?thesis
      using r len assms(2)
      by (auto simp: manageShipList_def valid_selection_def clamp_selection_eq Let_def)
  next
    case False
    then have "ps = players g"
      using remove_at_point_untouched [of "players g" px py] r by simp
    then show ?thesis
      using r False assms(2)
      by (auto simp: manageShipList_def valid_selection_def Let_def)
  qed
qed

lemma key_action_valid:
  assumes "valid_selection g" and "k \<noteq> SPACE" and "key_action g d k = Inr g'"
  shows "valid_selection g'"
  using assms
  by (auto simp: key_action_def with_first_def valid_selection_def Let_def
      split: if_splits list.splits)

lemma handle_valid_selection:
  assumes "count_ok g" and "valid_selection g" and "ev \<noteq> KeyPress SPACE"
    and "handle g (e, ev) = Inr g'"
  shows "valid_selection g'"
proof (cases ev)
  case (KeyPress k)
  then obtain g1 where "key_action g (rand e) k = Inr g1"
    and "g' = select_player g1 k NUMBER_KEYS 0"
    using assms(4) by (auto simp: on_key_press_def split: sum.splits)
  then show ?thesis
    using key_action_valid [OF assms(2), of k "rand e" g1] assms(3) KeyPress
    by (simp add: select_player_valid)
next
  case (KeyRelease k)
  then show ?thesis
    using assms by (auto simp: on_key_release_def valid_selection_def Let_def)
next
  case (MousePress mx my b)
  then show ?thesis
    using assms manageShipList_valid [OF assms(1,2)]
    by (auto simp: on_mouse_press_def manipulateMainShip_def valid_selection_def Let_def
        split: if_splits sum.splits)
next
  case (MouseRelease mx my b)
  then show ?thesis
    using assms by (auto simp: on_mouse_release_def valid_selection_def)
next
  case Update
  then show ?thesis
    using assms by (auto simp: valid_selection_def update_def Let_def)
qed

lemma reset_valid_selection:
  assumes "valid_selection g" and "on_key_press g d SPACE = Inr g'"
  shows "valid_selection g' \<longleftrightarrow> playerToManipulate g = 0"
proof -
  obtain p rest where "players g = p # rest"
    using assms(1) by (cases "players g") (auto simp: valid_selection_def)
  then have "g' = g\<lparr>players := [reset d p]\<rparr>"
    using assms(2) reset_key [of g p rest d] by simp
  then show ?thesis
    using assms(1) by (auto simp: valid_selection_def)
qed

lemma handle_returns:
  assumes "valid_selection g"
  shows "\<exists>g'. handle g step = Inr g'"
proof -
  obtain e ev where step: "step = (e, ev)"
    by (cases step)
  obtain p rest where ps: "players g = p # rest"
    using assms by (cases "players g") (auto simp: valid_selection_def)
  have sub: "subscript (players g) (playerToManipulate g) = Inr (nat (playerToManipulate g))"
    using assms by (simp add: subscript_def valid_selection_def)
  show ?thesis
  proof (cases ev)
    case (KeyPress k)
    then show ?thesis
      using step ps by (simp add: on_key_press_def key_action_def with_first_def Let_def)
  next
    case (MousePress mx my b)
    then show ?thesis
      using step sub by (simp add: on_mouse_press_def manipulateMainShip_def Let_def)
  qed (simp_all add: step)
qed

end
